theory Spec2Isabelle
  imports Main "HOL-Library.Word"
begin

section \<open>The Stockfish driver of chess-simulator.cpp\<close>

text \<open>
  The source file holds two functions: \<open>run_stockfish\<close>, which finds the engine, starts
  it behind two pipes, talks UCI to it and tears it down, and \<open>ChessSimulator::Move\<close>,
  which runs it inside a \<open>try\<close> block and cuts the move out of the captured text.

  The embedding keeps the code's order of statements. What the operating system and the
  engine decide is read from an environment record; what the code does to the outside
  (descriptor operations, writes to the engine, process control, messages on
  \<open>std::cerr\<close>) is appended to a trace of events. C++ exceptions are values.

  Time is the steady clock in nanoseconds. It never goes back, and a sleep lasts at least
  as long as asked: this is what makes the two wait loops total functions.

  The parent writes to the engine through a pipe of which it keeps the write end only.
  A flush towards an engine that has closed its end raises \<open>SIGPIPE\<close>; the source
  neither ignores nor handles the signal and checks no write, so the process ends there
  unless the host program ignores the signal. \<open>waitpid(pid, NULL, 0)\<close> blocks for as
  long as the child lives. Both are outcomes of a call in the model. The failure of a
  memory allocation is not part of the model.
\<close>

subsection \<open>Strings as the C and C++ libraries read them\<close>

definition NUL :: char where
  "NUL = CHR 0x00"

definition newline :: char where
  "newline = CHR 0x0A"

text \<open>\<open>c_str\<close> read through \<open>%s\<close>: the bytes before the first NUL.\<close>

definition c_str :: "string \<Rightarrow> string" where
  "c_str s = takeWhile (\<lambda>c. c \<noteq> NUL) s"

fun starts_with :: "string \<Rightarrow> string \<Rightarrow> bool" where
  "starts_with s [] = True"
| "starts_with [] (p # ps) = False"
| "starts_with (c # cs) (p # ps) = (c = p \<and> starts_with cs ps)"

text \<open>
  \<open>find_at s pat i\<close> scans \<open>s\<close>, whose first character has index \<open>i\<close> in the whole
  string, for the first place where \<open>pat\<close> occurs. \<open>None\<close> is \<open>std::string::npos\<close>.
\<close>

fun find_at :: "string \<Rightarrow> string \<Rightarrow> nat \<Rightarrow> nat option" where
  "find_at [] pat i = (if pat = [] then Some i else None)"
| "find_at (c # cs) pat i =
     (if starts_with (c # cs) pat then Some i else find_at cs pat (Suc i))"

text \<open>\<open>s.find(pat, pos)\<close>.\<close>

definition find_str :: "string \<Rightarrow> string \<Rightarrow> nat \<Rightarrow> nat option" where
  "find_str s pat pos = (if length s < pos then None else find_at (drop pos s) pat pos)"

text \<open>\<open>strstr(buffer, token) != NULL\<close>.\<close>

definition strstr :: "string \<Rightarrow> string \<Rightarrow> bool" where
  "strstr buffer token = (find_at buffer token 0 \<noteq> None)"

subsection \<open>Printing numbers in decimal\<close>

definition dec_digit :: "nat \<Rightarrow> char" where
  "dec_digit n = ''0123456789'' ! n"

function show_nat :: "nat \<Rightarrow> string" where
  "show_nat n = (if n < 10 then [dec_digit n] else show_nat (n div 10) @ [dec_digit (n mod 10)])"
  by pat_completeness auto
termination
  by (relation "measure id") auto

declare show_nat.simps [simp del]

definition show_int :: "int \<Rightarrow> string" where
  "show_int i = (if i < 0 then CHR ''-'' # show_nat (nat (- i)) else show_nat (nat i))"

subsection \<open>Exceptions and substrings\<close>

datatype exn = Runtime_error string | Out_of_range string

text \<open>\<open>e.what()\<close>: the message the exception was made with.\<close>

fun what :: "exn \<Rightarrow> string" where
  "what (Runtime_error msg) = msg"
| "what (Out_of_range msg) = msg"

text \<open>
  The message of the \<open>std::out_of_range\<close> that \<open>substr\<close> throws, in the words of
  libstdc++ (\<open>%s: __pos (which is %zu) > this->size() (which is %zu)\<close>); the standard
  leaves the wording to the library.
\<close>

definition substr_what :: "nat \<Rightarrow> nat \<Rightarrow> string" where
  "substr_what pos len =
     ''basic_string::substr: __pos (which is '' @ show_nat pos
       @ '') > this->size() (which is '' @ show_nat len @ '')''"

text \<open>
  \<open>s.substr(pos)\<close> and \<open>s.substr(pos, n)\<close>: both throw \<open>std::out_of_range\<close> when
  \<open>pos\<close> is beyond the end, and stop at the end of the string otherwise.
\<close>

definition substr_from :: "string \<Rightarrow> nat \<Rightarrow> exn + string" where
  "substr_from s pos =
     (if length s < pos then Inl (Out_of_range (substr_what pos (length s)))
      else Inr (drop pos s))"

definition substr :: "string \<Rightarrow> nat \<Rightarrow> nat \<Rightarrow> exn + string" where
  "substr s pos n =
     (if length s < pos then Inl (Out_of_range (substr_what pos (length s)))
      else Inr (take n (drop pos s)))"

text \<open>Subtraction of two \<open>size_t\<close> values (64 bits): it wraps around below zero.\<close>

definition size_sub :: "nat \<Rightarrow> nat \<Rightarrow> nat" where
  "size_sub a b = (if b \<le> a then a - b else a + 2 ^ 64 - b)"

subsection \<open>The parse step of Move\<close>

text \<open>
  Lines 193 to 208 of the source, on the text that \<open>run_stockfish\<close> returned:
  \<open>Inr (Some m)\<close> is \<open>return bestMove\<close>, \<open>Inr None\<close> is the branch that finds no
  \<open>bestmove\<close> and falls through to the end of \<open>Move\<close>, \<open>Inl e\<close> is an exception
  thrown by \<open>substr\<close>.
\<close>

definition parse_output :: "string \<Rightarrow> exn + string option" where
  "parse_output output =
     (case find_str output ''bestmove'' 0 of
        Some bestmovePos \<Rightarrow>
          (case substr_from output bestmovePos of
             Inl e \<Rightarrow> Inl e
           | Inr line \<Rightarrow>
               (let spacePos = (case find_str line '' '' 9 of
                                  Some p \<Rightarrow> p
                                | None \<Rightarrow> length line)
                in case substr line 9 (size_sub spacePos 9) of
                     Inl e \<Rightarrow> Inl e
                   | Inr bestMove \<Rightarrow> Inr (Some bestMove)))
      | None \<Rightarrow> Inr None)"

subsection \<open>The environment and the trace\<close>

text \<open>
  The four pipe descriptors \<open>parent_to_child[0]\<close>, \<open>parent_to_child[1]\<close>,
  \<open>child_to_parent[0]\<close>, \<open>child_to_parent[1]\<close> and the two \<open>FILE\<close> streams opened
  on the parent's ends.
\<close>

datatype fd = P2C_read | P2C_write | C2P_read | C2P_write

datatype stream = To_engine | From_engine

datatype event =
    Pipe fd fd
  | Fork
  | Close fd
  | Dup2 fd nat
  | Execl string
  | Perror string
  | Set_nonblock fd
  | Fdopen fd stream
  | Fprintf string
  | Fflush
  | Fclose stream
  | Kill int
  | Waitpid int
  | Cerr string

text \<open>
  What the code reads from outside. \<open>fgets_from_engine k\<close> is the result of the
  \<open>k\<close>-th call of \<open>fgets\<close> on the non-blocking stream: \<open>None\<close> for a null return,
  \<open>Some buffer\<close> with the buffer read as a C string otherwise. \<open>lag k\<close> is the time in
  nanoseconds that passes around the \<open>k\<close>-th poll beyond the requested sleep:
  \<open>sleep_for\<close> blocks for at least the time asked, and the steady clock never goes back.

  \<open>reader_open k\<close> says whether the engine's end of the pipe is still open at the
  \<open>k\<close>-th \<open>fflush(to_engine)\<close> (lines 100, 111, 139, 143 and 171 are flushes 0 to 4):
  the write of that flush succeeds, or it fails with \<open>EPIPE\<close> and raises \<open>SIGPIPE\<close>.
  The few lines sent fit stdio's buffer and the pipe, so that they are written at the
  flush. \<open>sigpipe_ignored\<close> is the disposition the host program gave the signal (the
  source sets none; the default ends the process). \<open>child_terminates\<close> says whether
  the child ends at some time (by itself, on \<open>quit\<close>, on the end of its input or on
  \<open>SIGTERM\<close>), which is when \<open>waitpid\<close> returns.
\<close>

record env =
  access_X_OK :: "string \<Rightarrow> bool"
  pipe1_ok :: bool
  pipe2_ok :: bool
  fork_pid :: int
  execl_ok :: bool
  hardware_concurrency :: "32 word"
  clock0 :: nat
  fgets_from_engine :: "nat \<Rightarrow> string option"
  lag :: "nat \<Rightarrow> nat"
  reader_open :: "nat \<Rightarrow> bool"
  sigpipe_ignored :: bool
  child_terminates :: bool

text \<open>
  How a call ends: it returns a value; it throws; the process is ended by \<open>SIGPIPE\<close>
  inside the call; the call stays blocked in \<open>waitpid\<close> for ever; or (in the forked
  child only) the process is replaced by the engine or exits.
\<close>

datatype 'a res =
    Returns 'a
  | Throws exn
  | Killed_by_SIGPIPE
  | Blocked_in_waitpid
  | Exec_image string
  | Exited nat

subsection \<open>Finding the engine\<close>

definition stockfish_paths :: "string list" where
  "stockfish_paths =
     [''/usr/local/bin/stockfish'', ''/app/stockfish'', ''stockfish'',
      ''/opt/homebrew/bin/stockfish'']"

text \<open>
  The \<open>for\<close> loop of lines 33 to 38: \<open>stockfish_path\<close> starts empty and takes the
  first path that \<open>access(path, X_OK)\<close> accepts.
\<close>

fun find_path :: "env \<Rightarrow> string list \<Rightarrow> string" where
  "find_path env [] = []"
| "find_path env (path # rest) =
     (if access_X_OK env path then path else find_path env rest)"

subsection \<open>The two wait loops\<close>

text \<open>
  \<open>duration_cast<seconds>(d).count()\<close> of a duration in nanoseconds: division that
  truncates towards zero.
\<close>

definition seconds_count :: "int \<Rightarrow> int" where
  "seconds_count d = (if 0 \<le> d then d div 1000000000 else - ((- d) div 1000000000))"

record poll =
  result :: string
  found :: bool
  reads :: nat
  clock :: nat

text \<open>
  Both loops have the same body: lines 119 to 135 wait for \<open>readyok\<close> with limit 5,
  lines 150 to 167 for \<open>bestmove\<close> with limit 7. One round reads a chunk, appends it,
  looks for the token in the chunk alone, reads the clock, leaves by \<open>break\<close> when the
  whole seconds since \<open>start_time\<close> exceed the limit, and sleeps 10 ms otherwise.
\<close>

function wait_loop :: "env \<Rightarrow> string \<Rightarrow> int \<Rightarrow> nat \<Rightarrow> poll \<Rightarrow> poll" where
  "wait_loop env token limit start_time s =
     (if found s then s
      else
        let s1 = (case fgets_from_engine env (reads s) of
                    Some buffer \<Rightarrow>
                      s\<lparr>result := result s @ buffer, found := strstr buffer token\<rparr>
                  | None \<Rightarrow> s);
            now = clock s + lag env (reads s);
            s2 = s1\<lparr>reads := Suc (reads s), clock := now\<rparr>
        in if limit < seconds_count (int now - int start_time) then s2
           else wait_loop env token limit start_time (s2\<lparr>clock := now + 10000000\<rparr>))"
  by pat_completeness auto
termination
proof (relation "measure (\<lambda>(env, token, limit, start_time, s).
         nat (int start_time + (limit + 1) * 1000000000 - int (clock s)))", goal_cases)
  case 1
  show ?case by simp
next
  case (2 env token limit start_time s x xa xb)
  from 2(5) have "int xa - int start_time < (limit + 1) * 1000000000"
    by (auto simp: seconds_count_def split: if_splits)
  moreover from 2(3) have "clock s \<le> xa" by simp
  ultimately show ?case by (simp add: 2(4))
qed

declare wait_loop.simps [simp del]

subsection \<open>run_stockfish\<close>

text \<open>The child's branch of the fork, lines 63 to 82: it never comes back to the caller.\<close>

definition child :: "env \<Rightarrow> string \<Rightarrow> string res \<times> event list" where
  "child env stockfish_path =
     (let tr = [Close P2C_write, Dup2 P2C_read 0, Close P2C_read,
                Close C2P_read, Dup2 C2P_write 1, Close C2P_write,
                Execl stockfish_path]
      in if execl_ok env then (Exec_image stockfish_path, tr)
         else (Exited 1, tr @ [Perror ''exec failed'']))"

text \<open>Lines 87 to 96: the parent's ends of the pipes become two streams.\<close>

definition open_streams :: "event list" where
  "open_streams =
     [Close P2C_read, Close C2P_write, Set_nonblock C2P_read,
      Fdopen P2C_write To_engine, Fdopen C2P_read From_engine]"

text \<open>Lines 99 and 100.\<close>

definition uci_cmd :: "event list" where
  "uci_cmd = [Fprintf (''uci'' @ [newline]), Fflush]"

text \<open>Lines 106 to 111.\<close>

definition configure :: "env \<Rightarrow> event list" where
  "configure env =
     [Fprintf (''setoption name Threads value ''
                 @ show_int (sint (hardware_concurrency env)) @ [newline]),
      Fprintf (''setoption name Hash value 512'' @ [newline]),
      Fprintf (''setoption name Skill Level value 20'' @ [newline]),
      Fprintf (''setoption name MultiPV value 1'' @ [newline]),
      Fprintf (''isready'' @ [newline]), Fflush]"

text \<open>Lines 138 and 139, and lines 142 and 143.\<close>

definition position_cmd :: "string \<Rightarrow> event list" where
  "position_cmd fen = [Fprintf (''position fen '' @ c_str fen @ [newline]), Fflush]"

definition go_cmd :: "event list" where
  "go_cmd = [Fprintf (''go movetime 1000'' @ [newline]), Fflush]"

text \<open>Lines 170 and 171, and lines 174 to 179. Together they are the clean-up.\<close>

definition quit_cmd :: "event list" where
  "quit_cmd = [Fprintf (''quit'' @ [newline]), Fflush]"

definition release :: "int \<Rightarrow> event list" where
  "release pid = [Fclose To_engine, Fclose From_engine, Kill pid, Waitpid pid]"

definition shutdown :: "int \<Rightarrow> event list" where
  "shutdown pid = quit_cmd @ release pid"

text \<open>
  The process gets past the \<open>k\<close>-th flush when the write succeeds or the signal is
  ignored.
\<close>

definition survives_flush :: "env \<Rightarrow> nat \<Rightarrow> bool" where
  "survives_flush env k = (reader_open env k \<or> sigpipe_ignored env)"

text \<open>
  The state in which the first loop starts (after the 100 ms sleep of line 103) and the
  state in which the second starts: \<open>result.clear()\<close>, a new \<open>start_time\<close> and the flag
  \<open>found_bestmove\<close> set to false.
\<close>

definition ready_wait :: "env \<Rightarrow> poll" where
  "ready_wait env =
     (let start_time = clock0 env + 100000000
      in wait_loop env ''readyok'' 5 start_time
           \<lparr>result = [], found = False, reads = 0, clock = start_time\<rparr>)"

definition result_wait :: "env \<Rightarrow> poll" where
  "result_wait env =
     (let s = ready_wait env;
          start_time = clock s
      in wait_loop env ''bestmove'' 7 start_time (s\<lparr>result := [], found := False\<rparr>))"

text \<open>
  The parent's side after the fork, lines 84 to 181. The first wait loop runs between
  flush 1 and flush 2, the second between flush 3 and flush 4; neither adds an event.
  The value returned is \<open>result\<close> as the second loop left it.
\<close>

definition parent :: "env \<Rightarrow> string \<Rightarrow> int \<Rightarrow> string res \<times> event list" where
  "parent env fen pid =
     (let tr0 = open_streams @ uci_cmd in
      if \<not> survives_flush env 0 then (Killed_by_SIGPIPE, tr0)
      else
        let tr1 = tr0 @ configure env in
        if \<not> survives_flush env 1 then (Killed_by_SIGPIPE, tr1)
        else
          let tr2 = tr1 @ position_cmd fen in
          if \<not> survives_flush env 2 then (Killed_by_SIGPIPE, tr2)
          else
            let tr3 = tr2 @ go_cmd in
            if \<not> survives_flush env 3 then (Killed_by_SIGPIPE, tr3)
            else
              let tr4 = tr3 @ quit_cmd in
              if \<not> survives_flush env 4 then (Killed_by_SIGPIPE, tr4)
              else
                let tr5 = tr4 @ release pid in
                if child_terminates env then (Returns (result (result_wait env)), tr5)
                else (Blocked_in_waitpid, tr5))"

definition run_stockfish :: "env \<Rightarrow> string \<Rightarrow> string res \<times> event list" where
  "run_stockfish env fen =
     (let stockfish_path = find_path env stockfish_paths
      in if stockfish_path = []
         then (Throws (Runtime_error
                 ''Could not find stockfish executable in any of the expected paths.''), [])
         else if \<not> pipe1_ok env
         then (Throws (Runtime_error ''Failed to create pipes''), [])
         else if \<not> pipe2_ok env
         then (Throws (Runtime_error ''Failed to create pipes''), [Pipe P2C_read P2C_write])
         else
           let pipes = [Pipe P2C_read P2C_write, Pipe C2P_read C2P_write, Fork];
               pid = fork_pid env
           in if pid < 0
              then (Throws (Runtime_error ''Failed to fork process''),
                    pipes @ [Close P2C_read, Close P2C_write, Close C2P_read, Close C2P_write])
              else if pid = 0
              then (case child env stockfish_path of (r, tr) \<Rightarrow> (r, pipes @ tr))
              else (case parent env fen pid of (r, tr) \<Rightarrow> (r, pipes @ tr)))"

subsection \<open>Move\<close>

text \<open>
  The \<open>try\<close> block around \<open>run_stockfish\<close> and the parse step, the \<open>catch\<close> of every
  \<open>std::exception\<close>, and the final \<open>return ""\<close>. A call of \<open>run_stockfish\<close> that
  does not come back leaves \<open>Move\<close> in the same way. \<open>Move_result\<close> is what lines 193 to
  213 make of a captured text: the string returned and the lines written to \<open>std::cerr\<close>.
\<close>

definition Move_result :: "string \<Rightarrow> string \<times> event list" where
  "Move_result output =
     (case parse_output output of
        Inr (Some bestMove) \<Rightarrow> (bestMove, [])
      | Inr None \<Rightarrow> ([], [Cerr ''Error: 'bestmove' not found in stockfish output''])
      | Inl e \<Rightarrow> ([], [Cerr (''Error: '' @ what e)]))"

definition Move :: "env \<Rightarrow> string \<Rightarrow> string res \<times> event list" where
  "Move env fen =
     (case run_stockfish env fen of
        (Returns output, tr) \<Rightarrow>
          (case Move_result output of (move, errs) \<Rightarrow> (Returns move, tr @ errs))
      | (Throws e, tr) \<Rightarrow> (Returns [], tr @ [Cerr (''Error: '' @ what e)])
      | (Killed_by_SIGPIPE, tr) \<Rightarrow> (Killed_by_SIGPIPE, tr)
      | (Blocked_in_waitpid, tr) \<Rightarrow> (Blocked_in_waitpid, tr)
      | (Exec_image path, tr) \<Rightarrow> (Exec_image path, tr)
      | (Exited status, tr) \<Rightarrow> (Exited status, tr))"

subsection \<open>Notions used to state the properties\<close>

text \<open>The chunk that the \<open>k\<close>-th poll appends to \<open>result\<close>, and the text of polls \<open>i\<close> to \<open>j - 1\<close>.\<close>

definition chunk :: "env \<Rightarrow> nat \<Rightarrow> string" where
  "chunk env k = (case fgets_from_engine env k of Some buffer \<Rightarrow> buffer | None \<Rightarrow> [])"

definition captured :: "env \<Rightarrow> nat \<Rightarrow> nat \<Rightarrow> string" where
  "captured env i j = concat (map (chunk env) [i..<j])"

text \<open>One round of a wait loop up to the reading of the clock.\<close>

definition poll_once :: "env \<Rightarrow> string \<Rightarrow> poll \<Rightarrow> poll" where
  "poll_once env token s =
     (case fgets_from_engine env (reads s) of
        Some buffer \<Rightarrow> s\<lparr>result := result s @ buffer, found := strstr buffer token\<rparr>
      | None \<Rightarrow> s)
     \<lparr>reads := Suc (reads s), clock := clock s + lag env (reads s)\<rparr>"

text \<open>The engine was found, both pipes were made and \<open>fork\<close> returned the child's pid.\<close>

definition spawned :: "env \<Rightarrow> bool" where
  "spawned env =
     (find_path env stockfish_paths \<noteq> [] \<and> pipe1_ok env \<and> pipe2_ok env \<and> 0 < fork_pid env)"

text \<open>Every flush of the run finds the engine reading, or the signal is ignored.\<close>

definition engine_listens :: "env \<Rightarrow> bool" where
  "engine_listens env =
     (survives_flush env 0 \<and> survives_flush env 1 \<and> survives_flush env 2
      \<and> survives_flush env 3 \<and> survives_flush env 4)"

text \<open>White space as \<open>isspace\<close> knows it: space, tab, newline, VT, FF, CR.\<close>

definition is_space :: "char \<Rightarrow> bool" where
  "is_space c = (c \<in> set [CHR '' '', CHR 0x09, CHR 0x0A, CHR 0x0B, CHR 0x0C, CHR 0x0D])"

text \<open>
  A FEN is one line of text: the six fields of a position, with no NUL and no newline
  in it.
\<close>

definition one_line :: "string \<Rightarrow> bool" where
  "one_line s = (NUL \<notin> set s \<and> newline \<notin> set s)"

text \<open>
  The lines of a byte stream, as the engine reads its input: \<open>cur\<close> is the line read
  so far.
\<close>

fun lines_from :: "string \<Rightarrow> string \<Rightarrow> string list" where
  "lines_from cur [] = (if cur = [] then [] else [cur])"
| "lines_from cur (c # cs) =
     (if c = newline then cur # lines_from [] cs else lines_from (cur @ [c]) cs)"

definition lines_of :: "string \<Rightarrow> string list" where
  "lines_of s = lines_from [] s"

text \<open>The command lines written to the engine, in order.\<close>

fun commands :: "event list \<Rightarrow> string list" where
  "commands [] = []"
| "commands (Fprintf s # tr) = s # commands tr"
| "commands (e # tr) = commands tr"

text \<open>
  The steps that only the clean-up makes: the \<open>quit\<close> command, closing a stream,
  the signal and the wait. (A flush follows every group of commands.)
\<close>

fun shutdown_part :: "event \<Rightarrow> bool" where
  "shutdown_part (Fprintf s) = (s = ''quit'' @ [newline])"
| "shutdown_part (Fclose f) = True"
| "shutdown_part (Kill pid) = True"
| "shutdown_part (Waitpid pid) = True"
| "shutdown_part e = False"

subsection \<open>Sample environments and inputs\<close>

definition start_fen :: string where
  "start_fen = ''rnbqkbnr/pppppppp/8/8/4P3/8/PPPP1PPP/RNBQKBNR b KQkq e3 0 1''"

text \<open>
  An engine at \<open>/app/stockfish\<close> that reads its input, never writes, and ends on
  \<open>SIGTERM\<close>; every poll takes three seconds.
\<close>

definition env_quiet :: env where
  "env_quiet =
     \<lparr>access_X_OK = (\<lambda>p. p = ''/app/stockfish''), pipe1_ok = True, pipe2_ok = True,
      fork_pid = 4242, execl_ok = True, hardware_concurrency = 8, clock0 = 0,
      fgets_from_engine = (\<lambda>k. None), lag = (\<lambda>k. 3000000000),
      reader_open = (\<lambda>k. True), sigpipe_ignored = False, child_terminates = True\<rparr>"

text \<open>The same engine, whose answer reaches the third and fourth poll in two pieces.\<close>

definition env_split :: env where
  "env_split =
     env_quiet\<lparr>fgets_from_engine :=
       (\<lambda>k. if k = 2 then Some ''best'' else if k = 3 then Some ''move e2e4 '' else None)\<rparr>"

text \<open>An engine that answers \<open>readyok\<close> and then a best move without a ponder move.\<close>

definition env_no_ponder :: env where
  "env_no_ponder =
     env_quiet\<lparr>fgets_from_engine :=
       (\<lambda>k. if k = 0 then Some (''readyok'' @ [newline])
            else if k = 1 then Some (''bestmove e2e4'' @ [newline]) else None)\<rparr>"

definition env_no_engine :: env where
  "env_no_engine = env_quiet\<lparr>access_X_OK := (\<lambda>p. False)\<rparr>"


definition env_fork_fails :: env where
  "env_fork_fails = env_quiet\<lparr>fork_pid := - 1\<rparr>"

text \<open>An engine that reports on its search once and never gives a move.\<close>

definition env_info :: env where
  "env_info =
     env_quiet\<lparr>fgets_from_engine :=
       (\<lambda>k. if k = 2 then Some (''info depth 1'' @ [newline]) else None)\<rparr>"


text \<open>
  An engine file that \<open>access\<close> accepts and \<open>execl\<close> refuses, seen from the parent:
  the child has exited when the configuration is flushed, and the pipe has no reader.
\<close>

definition env_exec_fails :: env where
  "env_exec_fails = env_quiet\<lparr>execl_ok := False, reader_open := (\<lambda>k. k < 1)\<rparr>"

text \<open>An engine that starts, reads the configuration and ends before it answers.\<close>

definition env_dies_early :: env where
  "env_dies_early = env_quiet\<lparr>reader_open := (\<lambda>k. k < 2)\<rparr>"


text \<open>An engine that reports on its search once, gives no move, and outlives \<open>SIGTERM\<close>.\<close>

definition env_deaf_info :: env where
  "env_deaf_info = env_info\<lparr>child_terminates := False\<rparr>"

section \<open>Lemmas\<close>

subsection \<open>The wait loops\<close>

lemma captured_same: "captured env i i = []"
  by (simp add: captured_def)

lemma captured_step: "i < j \<Longrightarrow> captured env i j = chunk env i @ captured env (Suc i) j"
  by (simp add: captured_def upt_conv_Cons)

lemma wait_loop_found: "found s \<Longrightarrow> wait_loop env token limit start_time s = s"
  by (simp add: wait_loop.simps)

lemma wait_loop_unfold:
  "\<not> found s \<Longrightarrow>
   wait_loop env token limit start_time s =
     (if limit < seconds_count (int (clock (poll_once env token s)) - int start_time)
      then poll_once env token s
      else wait_loop env token limit start_time
             (poll_once env token s\<lparr>clock := clock (poll_once env token s) + 10000000\<rparr>))"
  by (subst wait_loop.simps) (simp add: poll_once_def Let_def split: option.splits)

lemma poll_once_fields:
  "reads (poll_once env token s) = Suc (reads s)"
  "clock (poll_once env token s) = clock s + lag env (reads s)"
  "result (poll_once env token s) = result s @ chunk env (reads s)"
  by (simp_all add: poll_once_def chunk_def split: option.splits)

lemma poll_once_found:
  "found (poll_once env token s) =
     (case fgets_from_engine env (reads s) of Some buffer \<Rightarrow> strstr buffer token | None \<Rightarrow> found s)"
  by (simp add: poll_once_def split: option.splits)

lemma wait_loop_reads_result:
  "reads s \<le> reads (wait_loop env token limit start_time s) \<and>
   result (wait_loop env token limit start_time s) =
     result s @ captured env (reads s) (reads (wait_loop env token limit start_time s))"
proof (induction env token limit start_time s rule: wait_loop.induct)
  case (1 env token limit start_time s)
  show ?case
  proof (cases "found s")
    case True
    then show ?thesis by (simp add: wait_loop_found captured_same)
  next
    case nf: False
    let ?r = "poll_once env token s"
    show ?thesis
    proof (cases "limit < seconds_count (int (clock ?r) - int start_time)")
      case True
      with nf have "wait_loop env token limit start_time s = ?r"
        by (simp add: wait_loop_unfold)
      then show ?thesis
        by (simp add: poll_once_fields captured_step captured_same)
    next
      case False
      let ?n = "?r\<lparr>clock := clock ?r + 10000000\<rparr>"
      from nf False have eq: "wait_loop env token limit start_time s =
          wait_loop env token limit start_time ?n"
        by (simp add: wait_loop_unfold)
      have "reads ?n \<le> reads (wait_loop env token limit start_time ?n) \<and>
            result (wait_loop env token limit start_time ?n) =
              result ?n @ captured env (reads ?n) (reads (wait_loop env token limit start_time ?n))"
        using "1.IH" [OF nf refl refl refl] False
        by (simp add: poll_once_def)
      then show ?thesis
        by (simp add: eq poll_once_fields captured_step)
    qed
  qed
qed

lemma wait_loop_timed_out:
  "\<not> found (wait_loop env token limit start_time s) \<Longrightarrow>
   limit < seconds_count (int (clock (wait_loop env token limit start_time s)) - int start_time)"
proof (induction env token limit start_time s rule: wait_loop.induct)
  case (1 env token limit start_time s)
  show ?case
  proof (cases "found s")
    case True
    with "1.prems" show ?thesis by (simp add: wait_loop_found)
  next
    case nf: False
    let ?r = "poll_once env token s"
    show ?thesis
    proof (cases "limit < seconds_count (int (clock ?r) - int start_time)")
      case True
      with nf show ?thesis by (simp add: wait_loop_unfold)
    next
      case False
      let ?n = "?r\<lparr>clock := clock ?r + 10000000\<rparr>"
      from nf False have eq: "wait_loop env token limit start_time s =
          wait_loop env token limit start_time ?n"
        by (simp add: wait_loop_unfold)
      have "\<not> found (wait_loop env token limit start_time ?n) \<Longrightarrow>
            limit < seconds_count
              (int (clock (wait_loop env token limit start_time ?n)) - int start_time)"
        using "1.IH" [OF nf refl refl refl] False
        by (simp add: poll_once_def)
      with "1.prems" show ?thesis by (simp add: eq)
    qed
  qed
qed

lemma wait_loop_token_absent:
  "\<not> found s \<Longrightarrow>
   \<forall>k b. reads s \<le> k \<longrightarrow> fgets_from_engine env k = Some b \<longrightarrow> \<not> strstr b token \<Longrightarrow>
   \<not> found (wait_loop env token limit start_time s)"
proof (induction env token limit start_time s rule: wait_loop.induct)
  case (1 env token limit start_time s)
  let ?r = "poll_once env token s"
  from "1.prems" have nfr: "\<not> found ?r"
    by (auto simp: poll_once_found split: option.splits)
  show ?case
  proof (cases "limit < seconds_count (int (clock ?r) - int start_time)")
    case True
    with "1.prems"(1) nfr show ?thesis by (simp add: wait_loop_unfold)
  next
    case False
    let ?n = "?r\<lparr>clock := clock ?r + 10000000\<rparr>"
    from "1.prems"(1) False have eq: "wait_loop env token limit start_time s =
        wait_loop env token limit start_time ?n"
      by (simp add: wait_loop_unfold)
    have "\<not> found ?n" using nfr by simp
    moreover have "\<forall>k b. reads ?n \<le> k \<longrightarrow> fgets_from_engine env k = Some b \<longrightarrow> \<not> strstr b token"
    proof (intro allI impI)
      fix k b
      assume "reads ?n \<le> k" and b: "fgets_from_engine env k = Some b"
      then have "reads s \<le> k" by (simp add: poll_once_fields)
      with "1.prems"(2) b show "\<not> strstr b token" by blast
    qed
    moreover have "\<not> found ?n \<Longrightarrow>
        \<forall>k b. reads ?n \<le> k \<longrightarrow> fgets_from_engine env k = Some b \<longrightarrow> \<not> strstr b token \<Longrightarrow>
        \<not> found (wait_loop env token limit start_time ?n)"
      using "1.IH" [OF "1.prems"(1) refl refl refl] False
      by (simp add: poll_once_def)
    ultimately show ?thesis by (simp add: eq)
  qed
qed

lemma not_timed_out:
  "\<not> limit < seconds_count d \<Longrightarrow> d < (limit + 1) * 1000000000"
  by (auto simp: seconds_count_def split: if_splits)

lemma rounds_step:
  fixes A l :: int
  assumes "0 \<le> l" "0 < A - l"
  shows "1 + nat ((A - l - 10000000 + 10000000 - 1) div 10000000)
           \<le> nat ((A + 10000000 - 1) div 10000000)"
  using assms by linarith

lemma wait_loop_rounds:
  "reads (wait_loop env token limit start_time s) \<le>
     reads s + nat ((int start_time + (limit + 1) * 1000000000 - int (clock s) + 10000000 - 1)
                      div 10000000) + 1"
proof (induction env token limit start_time s rule: wait_loop.induct)
  case (1 env token limit start_time s)
  show ?case
  proof (cases "found s")
    case True
    then show ?thesis by (simp add: wait_loop_found)
  next
    case nf: False
    let ?r = "poll_once env token s"
    show ?thesis
    proof (cases "limit < seconds_count (int (clock ?r) - int start_time)")
      case True
      with nf show ?thesis by (simp add: wait_loop_unfold poll_once_fields)
    next
      case False
      let ?n = "?r\<lparr>clock := clock ?r + 10000000\<rparr>"
      let ?A = "int start_time + (limit + 1) * 1000000000 - int (clock s)"
      from nf False have eq: "wait_loop env token limit start_time s =
          wait_loop env token limit start_time ?n"
        by (simp add: wait_loop_unfold)
      have ih: "reads (wait_loop env token limit start_time ?n) \<le>
          reads ?n + nat ((int start_time + (limit + 1) * 1000000000 - int (clock ?n)
                            + 10000000 - 1) div 10000000) + 1"
        using "1.IH" [OF nf refl refl refl] False
        by (simp add: poll_once_def)
      from not_timed_out [OF False] have pos: "0 < ?A - int (lag env (reads s))"
        by (simp add: poll_once_fields)
      have clk: "int start_time + (limit + 1) * 1000000000 - int (clock ?n) + 10000000 - 1
          = ?A - int (lag env (reads s)) - 10000000 + 10000000 - 1"
        by (simp add: poll_once_fields)
      from rounds_step [OF _ pos] ih show ?thesis
        unfolding eq clk by (simp add: poll_once_fields)
    qed
  qed
qed

subsection \<open>Sample runs\<close>

lemma ready_wait_quiet:
  "ready_wait env_quiet = \<lparr>result = [], found = False, reads = 2, clock = 6110000000\<rparr>"
  by (simp add: ready_wait_def env_quiet_def wait_loop.simps seconds_count_def Let_def)

lemma result_wait_quiet:
  "result_wait env_quiet = \<lparr>result = [], found = False, reads = 5, clock = 15130000000\<rparr>"
  by (simp add: result_wait_def ready_wait_quiet)
     (simp add: env_quiet_def wait_loop.simps seconds_count_def Let_def)

lemma ready_wait_split:
  "ready_wait env_split = \<lparr>result = [], found = False, reads = 2, clock = 6110000000\<rparr>"
  by (simp add: ready_wait_def env_split_def env_quiet_def wait_loop.simps seconds_count_def
        Let_def)

lemma result_wait_split:
  "result_wait env_split =
     \<lparr>result = ''bestmove e2e4 '', found = False, reads = 5, clock = 15130000000\<rparr>"
  by (simp add: result_wait_def ready_wait_split)
     (simp add: env_split_def env_quiet_def wait_loop.simps seconds_count_def Let_def
        strstr_def)

lemma ready_wait_no_ponder:
  "ready_wait env_no_ponder =
     \<lparr>result = ''readyok'' @ [newline], found = True, reads = 1, clock = 3110000000\<rparr>"
  by (simp add: ready_wait_def env_no_ponder_def env_quiet_def wait_loop.simps
        seconds_count_def Let_def strstr_def)

lemma result_wait_no_ponder:
  "result_wait env_no_ponder =
     \<lparr>result = ''bestmove e2e4'' @ [newline], found = True, reads = 2,
      clock = 6120000000\<rparr>"
  by (simp add: result_wait_def ready_wait_no_ponder)
     (simp add: env_no_ponder_def env_quiet_def wait_loop.simps seconds_count_def Let_def
        strstr_def)

lemma find_path_quiet: "find_path env_quiet stockfish_paths = ''/app/stockfish''"
  by (simp add: env_quiet_def stockfish_paths_def)

lemma spawned_quiet: "spawned env_quiet"
  by (simp add: spawned_def env_quiet_def stockfish_paths_def)

lemma spawned_split: "spawned env_split"
  by (simp add: spawned_def env_split_def env_quiet_def stockfish_paths_def)

lemma spawned_no_ponder: "spawned env_no_ponder"
  by (simp add: spawned_def env_no_ponder_def env_quiet_def stockfish_paths_def)

lemma ready_wait_info:
  "ready_wait env_info = \<lparr>result = [], found = False, reads = 2, clock = 6110000000\<rparr>"
  by (simp add: ready_wait_def env_info_def env_quiet_def wait_loop.simps seconds_count_def
        Let_def)

lemma result_wait_info:
  "result_wait env_info =
     \<lparr>result = ''info depth 1'' @ [newline], found = False, reads = 5,
      clock = 15130000000\<rparr>"
  by (simp add: result_wait_def ready_wait_info)
     (simp add: env_info_def env_quiet_def wait_loop.simps seconds_count_def Let_def
        strstr_def newline_def)

lemma spawned_info: "spawned env_info"
  by (simp add: spawned_def env_info_def env_quiet_def stockfish_paths_def)

lemma captured_info:
  "captured env_info i j = (if i \<le> 2 \<and> 2 < j then ''info depth 1'' @ [newline] else [])"
  by (induction j) (auto simp: captured_def chunk_def env_info_def env_quiet_def)

subsection \<open>Searching\<close>

lemma starts_with_Nil_iff: "starts_with [] pat = (pat = [])"
  by (cases pat) simp_all

lemma find_at_first:
  "\<forall>k<length pre. \<not> starts_with (drop k (pre @ rest)) pat \<Longrightarrow> starts_with rest pat
     \<Longrightarrow> find_at (pre @ rest) pat i = Some (i + length pre)"
proof (induction pre arbitrary: i)
  case Nil
  then show ?case by (cases rest) (simp_all add: starts_with_Nil_iff)
next
  case (Cons a pre)
  from Cons.prems(1) have head: "\<not> starts_with (a # pre @ rest) pat"
    by (metis append_Cons drop0 length_greater_0_conv list.distinct(1))
  have tail: "\<forall>k<length pre. \<not> starts_with (drop k (pre @ rest)) pat"
  proof (intro allI impI)
    fix k assume "k < length pre"
    then have "Suc k < length (a # pre)" by simp
    with Cons.prems(1) have "\<not> starts_with (drop (Suc k) ((a # pre) @ rest)) pat" by blast
    then show "\<not> starts_with (drop k (pre @ rest)) pat" by simp
  qed
  from Cons.IH [OF tail Cons.prems(2)] head show ?case by simp
qed

lemma find_at_space_absent:
  "CHR '' '' \<notin> set tok \<Longrightarrow> find_at tok '' '' i = None"
  by (induction tok arbitrary: i) auto

lemma find_at_space_after:
  "CHR '' '' \<notin> set tok \<Longrightarrow> find_at (tok @ CHR '' '' # r) '' '' i = Some (i + length tok)"
  by (induction tok arbitrary: i) auto

lemma parse_first_token:
  assumes first: "\<forall>k<length pre.
      \<not> starts_with (drop k (pre @ ''bestmove'' @ sep # tok @ post)) ''bestmove''"
    and tok: "CHR '' '' \<notin> set tok"
    and post: "post = [] \<or> (\<exists>r. post = CHR '' '' # r)"
  shows "parse_output (pre @ ''bestmove'' @ sep # tok @ post) = Inr (Some tok)"
proof -
  let ?line = "''bestmove'' @ sep # tok @ post"
  have "starts_with ?line ''bestmove''" by simp
  with first have pos: "find_str (pre @ ?line) ''bestmove'' 0 = Some (length pre)"
    using find_at_first [of pre ?line "''bestmove''" 0] by (simp add: find_str_def)
  have line: "substr_from (pre @ ?line) (length pre) = Inr ?line"
    by (simp add: substr_from_def)
  have space: "(case find_str ?line '' '' 9 of Some p \<Rightarrow> p | None \<Rightarrow> length ?line)
      = 9 + length tok"
    using post tok
    by (auto simp: find_str_def find_at_space_absent find_at_space_after)
  have cut: "substr ?line 9 (size_sub (9 + length tok) 9) = Inr tok"
    by (simp add: substr_def size_sub_def)
  show ?thesis
    by (simp only: parse_output_def pos line option.case sum.case Let_def space cut)
qed

subsection \<open>The run as a whole\<close>

lemma run_stockfish_spawned:
  "spawned env \<Longrightarrow>
   run_stockfish env fen =
     (fst (parent env fen (fork_pid env)),
      [Pipe P2C_read P2C_write, Pipe C2P_read C2P_write, Fork]
      @ snd (parent env fen (fork_pid env)))"
  by (simp add: run_stockfish_def spawned_def Let_def split: prod.splits)

lemma parent_listens:
  "engine_listens env \<Longrightarrow>
   parent env fen pid =
     (if child_terminates env then Returns (result (result_wait env)) else Blocked_in_waitpid,
      open_streams @ uci_cmd @ configure env @ position_cmd fen @ go_cmd @ shutdown pid)"
  by (simp add: parent_def engine_listens_def shutdown_def Let_def)

lemma run_stockfish_listens:
  "spawned env \<Longrightarrow> engine_listens env \<Longrightarrow>
   run_stockfish env fen =
     (if child_terminates env then Returns (result (result_wait env)) else Blocked_in_waitpid,
      [Pipe P2C_read P2C_write, Pipe C2P_read C2P_write, Fork]
      @ open_streams @ uci_cmd @ configure env @ position_cmd fen @ go_cmd
      @ shutdown (fork_pid env))"
  by (simp add: run_stockfish_spawned parent_listens)

lemma run_stockfish_returns:
  "spawned env \<Longrightarrow> engine_listens env \<Longrightarrow> child_terminates env \<Longrightarrow>
   fst (run_stockfish env fen) = Returns (result (result_wait env))"
  by (simp add: run_stockfish_listens)

lemma listens_quiet: "engine_listens env_quiet"
  by (simp add: engine_listens_def survives_flush_def env_quiet_def)

lemma result_wait_captured:
  "reads (ready_wait env) \<le> reads (result_wait env) \<and>
   result (result_wait env) = captured env (reads (ready_wait env)) (reads (result_wait env))"
  using wait_loop_reads_result [of "ready_wait env\<lparr>result := [], found := False\<rparr>"
          env "''bestmove''" 7 "clock (ready_wait env)"]
  by (simp add: result_wait_def Let_def)

lemma Move_no_bestmove:
  "run_stockfish env fen = (Returns output, tr) \<Longrightarrow> find_str output ''bestmove'' 0 = None \<Longrightarrow>
   Move env fen = (Returns [], tr @ [Cerr ''Error: 'bestmove' not found in stockfish output''])"
  by (simp add: Move_def Move_result_def parse_output_def)



lemma Move_returns:
  "fst (run_stockfish env fen) = Returns output \<Longrightarrow>
   fst (Move env fen) = Returns (fst (Move_result output))"
  by (cases "run_stockfish env fen") (simp add: Move_def split: prod.splits)

lemma Move_killed:
  "fst (run_stockfish env fen) = Killed_by_SIGPIPE \<Longrightarrow> Move env fen = run_stockfish env fen"
  by (cases "run_stockfish env fen") (simp add: Move_def)

lemma Move_blocked:
  "fst (run_stockfish env fen) = Blocked_in_waitpid \<Longrightarrow> Move env fen = run_stockfish env fen"
  by (cases "run_stockfish env fen") (simp add: Move_def)

lemma Move_trace:
  "\<exists>errs. snd (Move env fen) = snd (run_stockfish env fen) @ errs \<and> filter shutdown_part errs = []"
  by (cases "run_stockfish env fen")
     (auto simp: Move_def Move_result_def split: res.splits sum.splits option.splits)


lemma stockfish_paths_nonempty: "p \<in> set stockfish_paths \<Longrightarrow> p \<noteq> []"
  by (auto simp: stockfish_paths_def)

lemma find_path_none: "\<forall>p\<in>set ps. \<not> access_X_OK env p \<Longrightarrow> find_path env ps = []"
  by (induction ps) simp_all

lemma find_path_first:
  "\<forall>q\<in>set pre. \<not> access_X_OK env q \<Longrightarrow> access_X_OK env p \<Longrightarrow>
   find_path env (pre @ p # post) = p"
  by (induction pre) simp_all

lemma chunk_no_token:
  assumes "\<forall>i j. find_str (captured env i j) token 0 = None"
    and "fgets_from_engine env k = Some b"
  shows "\<not> strstr b token"
proof -
  have "captured env k (Suc k) = b"
    using assms(2) by (simp add: captured_def chunk_def)
  with assms(1) have "find_str b token 0 = None" by metis
  then show ?thesis by (simp add: find_str_def strstr_def)
qed

subsection \<open>The clean-up\<close>

lemma no_cleanup_before_quit:
  "filter shutdown_part
     ([Pipe P2C_read P2C_write, Pipe C2P_read C2P_write, Fork]
      @ open_streams @ uci_cmd @ configure env @ position_cmd fen @ go_cmd) = []"
  by (simp add: open_streams_def uci_cmd_def configure_def position_cmd_def go_cmd_def)

lemma cleanup_parts:
  "filter shutdown_part (shutdown pid)
     = [Fprintf (''quit'' @ [newline]), Fclose To_engine, Fclose From_engine,
        Kill pid, Waitpid pid]"
  by (simp add: shutdown_def quit_cmd_def release_def)

text \<open>
  With an engine that reads at every flush, the trace ends with the clean-up, whose
  parts occur once each; the call comes back when the child ends.
\<close>

lemma cleanup_once_when_listening:
  assumes "spawned env" and "engine_listens env"
  shows "(\<exists>pre. snd (run_stockfish env fen) = pre @ shutdown (fork_pid env)
            \<and> filter shutdown_part pre = [])
       \<and> filter shutdown_part (snd (run_stockfish env fen))
           = [Fprintf (''quit'' @ [newline]), Fclose To_engine, Fclose From_engine,
              Kill (fork_pid env), Waitpid (fork_pid env)]"
proof -
  let ?pre = "[Pipe P2C_read P2C_write, Pipe C2P_read C2P_write, Fork]
      @ open_streams @ uci_cmd @ configure env @ position_cmd fen @ go_cmd"
  have tr: "snd (run_stockfish env fen) = ?pre @ shutdown (fork_pid env)"
    by (simp add: run_stockfish_listens [OF assms])
  have pre: "filter shutdown_part ?pre = []" by (rule no_cleanup_before_quit)
  have "filter shutdown_part (snd (run_stockfish env fen))
      = filter shutdown_part ?pre @ filter shutdown_part (shutdown (fork_pid env))"
    unfolding tr by (simp only: filter_append append_assoc)
  with pre cleanup_parts tr show ?thesis by (metis append_Nil)
qed

subsection \<open>The commands\<close>

lemma c_str_no_NUL: "NUL \<notin> set s \<Longrightarrow> c_str s = s"
  by (auto simp: c_str_def takeWhile_eq_all_conv)

lemma commands_append: "commands (xs @ ys) = commands xs @ commands ys"
  by (induction xs rule: commands.induct) simp_all

lemma quit_not_early:
  "Fprintf (''quit'' @ [newline]) \<notin>
     set ([Pipe P2C_read P2C_write, Pipe C2P_read C2P_write, Fork]
          @ open_streams @ uci_cmd @ configure env @ position_cmd fen @ go_cmd)"
  by (simp add: open_streams_def uci_cmd_def configure_def position_cmd_def go_cmd_def)

lemma teardown_reached:
  assumes "Fprintf (''quit'' @ [newline]) \<in> set (snd (run_stockfish env fen))"
  shows "spawned env \<and> survives_flush env 0 \<and> survives_flush env 1
         \<and> survives_flush env 2 \<and> survives_flush env 3"
  using assms
  by (auto simp: run_stockfish_def parent_def child_def spawned_def Let_def
        open_streams_def uci_cmd_def configure_def position_cmd_def go_cmd_def
      split: if_splits)

lemma commands_at_teardown:
  assumes "Fprintf (''quit'' @ [newline]) \<in> set (snd (run_stockfish env fen))"
  shows "commands (snd (run_stockfish env fen)) =
     [''uci'' @ [newline],
      ''setoption name Threads value '' @ show_int (sint (hardware_concurrency env)) @ [newline],
      ''setoption name Hash value 512'' @ [newline],
      ''setoption name Skill Level value 20'' @ [newline],
      ''setoption name MultiPV value 1'' @ [newline],
      ''isready'' @ [newline],
      ''position fen '' @ c_str fen @ [newline],
      ''go movetime 1000'' @ [newline],
      ''quit'' @ [newline]]"
proof -
  from teardown_reached [OF assms] have sp: "spawned env"
    and s: "survives_flush env 0" "survives_flush env 1" "survives_flush env 2"
      "survives_flush env 3"
    by simp_all
  show ?thesis
    using s
    by (simp add: run_stockfish_spawned [OF sp] parent_def Let_def commands_append
          open_streams_def uci_cmd_def configure_def position_cmd_def go_cmd_def
          quit_cmd_def release_def)
qed

subsection \<open>Lines\<close>

lemma lines_from_line:
  "newline \<notin> set body \<Longrightarrow>
   lines_from cur (body @ newline # rest) = (cur @ body) # lines_from [] rest"
  by (induction body arbitrary: cur) auto

lemma lines_of_line:
  "newline \<notin> set body \<Longrightarrow> lines_of ((body @ [newline]) @ rest) = body # lines_of rest"
  using lines_from_line [of body "[]" rest] by (simp add: lines_of_def)

lemma lines_of_last:
  "newline \<notin> set body \<Longrightarrow> lines_of (body @ [newline]) = [body]"
  using lines_of_line [of body "[]"] by (simp add: lines_of_def)

lemma dec_digit_not_newline: "n < 10 \<Longrightarrow> dec_digit n \<noteq> newline"
proof -
  assume "n < 10"
  then have "n \<in> {0, 1, 2, 3, 4, 5, 6, 7, 8, 9}" by auto
  then show ?thesis by (auto simp: dec_digit_def newline_def)
qed

lemma show_nat_no_newline: "newline \<notin> set (show_nat n)"
proof (induction n rule: show_nat.induct)
  case (1 n)
  show ?case
  proof (cases "n < 10")
    case True
    then show ?thesis
      using dec_digit_not_newline [of n] by (subst show_nat.simps) simp
  next
    case False
    have "n mod 10 < 10" by simp
    from dec_digit_not_newline [OF this] "1.IH" [OF False] False show ?thesis
      by (subst show_nat.simps) auto
  qed
qed

lemma show_int_no_newline: "newline \<notin> set (show_int i)"
  using show_nat_no_newline [of "nat (- i)"] show_nat_no_newline [of "nat i"]
  by (auto simp: show_int_def newline_def)

subsection \<open>More sample runs\<close>

lemma threads_quiet: "show_int (sint (hardware_concurrency env_quiet)) = ''8''"
  by (simp add: env_quiet_def show_int_def show_nat.simps dec_digit_def)




lemma listens_split: "engine_listens env_split"
  by (simp add: engine_listens_def survives_flush_def env_split_def env_quiet_def)

lemma listens_no_ponder: "engine_listens env_no_ponder"
  by (simp add: engine_listens_def survives_flush_def env_no_ponder_def env_quiet_def)

lemma listens_info: "engine_listens env_info"
  by (simp add: engine_listens_def survives_flush_def env_info_def env_quiet_def)






lemma ready_wait_deaf_info:
  "ready_wait env_deaf_info = \<lparr>result = [], found = False, reads = 2, clock = 6110000000\<rparr>"
  by (simp add: ready_wait_def env_deaf_info_def env_info_def env_quiet_def wait_loop.simps
        seconds_count_def Let_def)

lemma result_wait_deaf_info:
  "result_wait env_deaf_info =
     \<lparr>result = ''info depth 1'' @ [newline], found = False, reads = 5,
      clock = 15130000000\<rparr>"
  by (simp add: result_wait_def ready_wait_deaf_info)
     (simp add: env_deaf_info_def env_info_def env_quiet_def wait_loop.simps seconds_count_def
        Let_def strstr_def newline_def)

lemma spawned_deaf_info: "spawned env_deaf_info"
  by (simp add: spawned_def env_deaf_info_def env_info_def env_quiet_def stockfish_paths_def)

lemma listens_deaf_info: "engine_listens env_deaf_info"
  by (simp add: engine_listens_def survives_flush_def env_deaf_info_def env_info_def
        env_quiet_def)

lemma ready_wait_dies_early:
  "ready_wait env_dies_early = \<lparr>result = [], found = False, reads = 2, clock = 6110000000\<rparr>"
  by (simp add: ready_wait_def env_dies_early_def env_quiet_def wait_loop.simps
        seconds_count_def Let_def)

lemma spawned_dies_early: "spawned env_dies_early"
  by (simp add: spawned_def env_dies_early_def env_quiet_def stockfish_paths_def)

lemma spawned_exec_fails: "spawned env_exec_fails"
  by (simp add: spawned_def env_exec_fails_def env_quiet_def stockfish_paths_def)

lemma parent_exec_fails:
  "parent env_exec_fails fen pid
     = (Killed_by_SIGPIPE, open_streams @ uci_cmd @ configure env_exec_fails)"
  by (simp add: parent_def survives_flush_def env_exec_fails_def env_quiet_def Let_def)

lemma parent_dies_early:
  "parent env_dies_early fen pid
     = (Killed_by_SIGPIPE,
        open_streams @ uci_cmd @ configure env_dies_early @ position_cmd fen)"
  by (simp add: parent_def survives_flush_def env_dies_early_def env_quiet_def Let_def)



text \<open>The deadline of a wait loop in nanoseconds.\<close>

lemma timeout_in_nanoseconds:
  "0 \<le> limit \<Longrightarrow> (limit < seconds_count d) = ((limit + 1) * 1000000000 \<le> d)"
  by (auto simp: seconds_count_def)

subsection \<open>What holds with an engine that reads its input\<close>

text \<open>The two examples of the parser's contract.\<close>

lemma parse_examples:
  "Move_result (''info depth 1'' @ [newline] @ ''bestmove e2e4 ponder e7e5'' @ [newline])
     = (''e2e4'', [])"
  "Move_result (''info depth 1'' @ [newline] @ ''bestmove e2e4'') = (''e2e4'', [])"
  by (simp_all add: Move_result_def parse_output_def find_str_def substr_from_def substr_def
        size_sub_def newline_def)

text \<open>
  With an engine that reads at every flush, a timeout of the first loop is followed by
  the position and the search command.
\<close>

lemma ready_timeout_then_query_when_listening:
  assumes "spawned env" and "engine_listens env"
    and "\<forall>k b. fgets_from_engine env k = Some b \<longrightarrow> \<not> strstr b ''readyok''"
  shows "\<not> found (ready_wait env)
       \<and> 5 < seconds_count (int (clock (ready_wait env)) - int (clock0 env + 100000000))
       \<and> (\<exists>pre post. snd (run_stockfish env fen)
             = pre @ [Fprintf (''isready'' @ [newline]), Fflush] @ position_cmd fen @ go_cmd
               @ post)"
proof -
  let ?s = "\<lparr>result = [], found = False, reads = 0, clock = clock0 env + 100000000\<rparr>"
  have rw: "ready_wait env = wait_loop env ''readyok'' 5 (clock0 env + 100000000) ?s"
    by (simp add: ready_wait_def Let_def)
  have nf: "\<not> found (ready_wait env)"
    unfolding rw using assms(3) by (intro wait_loop_token_absent) simp_all
  then have t: "5 < seconds_count (int (clock (ready_wait env)) - int (clock0 env + 100000000))"
    unfolding rw by (rule wait_loop_timed_out)
  let ?pre = "[Pipe P2C_read P2C_write, Pipe C2P_read C2P_write, Fork]
       @ open_streams @ uci_cmd
       @ [Fprintf (''setoption name Threads value ''
                     @ show_int (sint (hardware_concurrency env)) @ [newline]),
          Fprintf (''setoption name Hash value 512'' @ [newline]),
          Fprintf (''setoption name Skill Level value 20'' @ [newline]),
          Fprintf (''setoption name MultiPV value 1'' @ [newline])]"
  have "snd (run_stockfish env fen)
      = ?pre @ [Fprintf (''isready'' @ [newline]), Fflush] @ position_cmd fen @ go_cmd
        @ shutdown (fork_pid env)"
    by (simp add: run_stockfish_listens [OF assms(1,2)] configure_def)
  then have "\<exists>pre post. snd (run_stockfish env fen)
      = pre @ [Fprintf (''isready'' @ [newline]), Fflush] @ position_cmd fen @ go_cmd @ post"
    by blast
  with nf t show ?thesis by blast
qed

section \<open>The claims\<close>

text \<open>
  C1. A text in which the first occurrence of \<open>bestmove\<close> is followed by one separating
  character, a token without white space, and then a space or the end of the text, is
  parsed to exactly that token. Whatever comes before that occurrence and after the
  space plays no part.
\<close>

theorem parse_returns_first_token:
  assumes "\<forall>k<length pre.
      \<not> starts_with (drop k (pre @ ''bestmove'' @ sep # tok @ post)) ''bestmove''"
    and "\<forall>c\<in>set tok. \<not> is_space c"
    and "post = [] \<or> (\<exists>r. post = CHR '' '' # r)"
  shows "parse_output (pre @ ''bestmove'' @ sep # tok @ post) = Inr (Some tok)
         \<and> Move_result (pre @ ''bestmove'' @ sep # tok @ post) = (tok, [])"
proof -
  have "is_space (CHR '' '')" by (simp add: is_space_def)
  with assms(2) have "CHR '' '' \<notin> set tok" by blast
  from parse_first_token [OF assms(1) this assms(3)] show ?thesis
    by (simp add: Move_result_def)
qed

theorem parse_returns_first_token_witness:
  "Move_result (''ok'' @ [newline] @ ''bestmove'' @ CHR '' '' # ''e2e4''
                  @ '' ponder e7e5'' @ [newline])
     = (''e2e4'', [])"
proof -
  let ?pre = "''ok'' @ [newline]" and ?post = "'' ponder e7e5'' @ [newline]"
  have 1: "\<forall>k<length ?pre.
      \<not> starts_with (drop k (?pre @ ''bestmove'' @ CHR '' '' # ''e2e4'' @ ?post)) ''bestmove''"
    by (simp add: newline_def less_Suc_eq numeral_3_eq_3)
  have 2: "\<forall>c\<in>set ''e2e4''. \<not> is_space c" by (simp add: is_space_def)
  have 3: "?post = [] \<or> (\<exists>r. ?post = CHR '' '' # r)" by simp
  from parse_returns_first_token [OF 1 2 3] show ?thesis by simp
qed

text \<open>
  The parser takes the first occurrence of the eight letters, also inside another word
  of an earlier line: here the text holds the line \<open>bestmove e2e4 ponder e7e5\<close>, and
  the move returned is not \<open>e2e4\<close>.
\<close>

theorem earlier_bestmove_counterexample:
  "Move_result (''info string nobestmove yet'' @ [newline]
                  @ ''bestmove e2e4 ponder e7e5'' @ [newline])
     = (''yet'' @ [newline] @ ''bestmove'', [])
   \<and> fst (Move_result (''info string nobestmove yet'' @ [newline]
                  @ ''bestmove e2e4 ponder e7e5'' @ [newline])) \<noteq> ''e2e4''"
  by (simp add: Move_result_def parse_output_def find_str_def substr_from_def substr_def
        size_sub_def newline_def)

text \<open>
  C2. When the second wait loop ends by its timeout without having seen \<open>bestmove\<close> in
  a chunk, more than 7 whole seconds have passed, and the text that \<open>run_stockfish\<close>
  returns is the text captured in that phase as it is: the chunks of all its polls, in
  order. With an engine that reads its input and ends after the clean-up the call does
  return it, and \<open>Move\<close> returns the empty string if that text holds no \<open>bestmove\<close>.
\<close>

theorem timeout_keeps_captured_text:
  assumes "spawned env" and "\<not> found (result_wait env)"
  shows "7 < seconds_count (int (clock (result_wait env)) - int (clock (ready_wait env)))
       \<and> (\<forall>output. fst (run_stockfish env fen) = Returns output \<longrightarrow>
            output = captured env (reads (ready_wait env)) (reads (result_wait env)))
       \<and> (engine_listens env \<and> child_terminates env \<longrightarrow>
            fst (run_stockfish env fen)
              = Returns (captured env (reads (ready_wait env)) (reads (result_wait env))))
       \<and> (engine_listens env \<and> child_terminates env
            \<and> find_str (captured env (reads (ready_wait env)) (reads (result_wait env)))
                 ''bestmove'' 0 = None
            \<longrightarrow> fst (Move env fen) = Returns [])"
proof -
  let ?text = "captured env (reads (ready_wait env)) (reads (result_wait env))"
  have t: "7 < seconds_count (int (clock (result_wait env)) - int (clock (ready_wait env)))"
    using assms(2) wait_loop_timed_out [of env "''bestmove''" 7 "clock (ready_wait env)"
        "ready_wait env\<lparr>result := [], found := False\<rparr>"]
    by (simp add: result_wait_def Let_def)
  have c: "result (result_wait env) = ?text"
    using result_wait_captured [of env] by simp
  have o: "\<forall>output. fst (run_stockfish env fen) = Returns output \<longrightarrow> output = ?text"
    by (auto simp: run_stockfish_spawned [OF assms(1)] parent_def Let_def c
          split: if_splits)
  have r: "fst (run_stockfish env fen) = Returns ?text"
    if "engine_listens env \<and> child_terminates env"
    using that by (simp add: run_stockfish_listens [OF assms(1)] c)
  have m: "fst (Move env fen) = Returns []"
    if h: "engine_listens env \<and> child_terminates env \<and> find_str ?text ''bestmove'' 0 = None"
  proof -
    from h r have "run_stockfish env fen = (Returns ?text, snd (run_stockfish env fen))"
      by (metis prod.collapse)
    from Move_no_bestmove [OF this] h show ?thesis by simp
  qed
  from t o r m show ?thesis by blast
qed

theorem timeout_keeps_captured_text_witness:
  "spawned env_info \<and> \<not> found (result_wait env_info)
   \<and> fst (run_stockfish env_info start_fen) = Returns (''info depth 1'' @ [newline])
   \<and> fst (Move env_info start_fen) = Returns []"
proof -
  have nf: "\<not> found (result_wait env_info)" by (simp add: result_wait_info)
  have c: "captured env_info (reads (ready_wait env_info)) (reads (result_wait env_info))
      = ''info depth 1'' @ [newline]"
    by (simp add: ready_wait_info result_wait_info)
       (simp add: captured_def chunk_def env_info_def upt_conv_Cons)
  have n: "find_str (''info depth 1'' @ [newline]) ''bestmove'' 0 = None"
    by (simp add: find_str_def newline_def)
  have l: "engine_listens env_info \<and> child_terminates env_info"
    using listens_info by (simp add: env_info_def env_quiet_def)
  from timeout_keeps_captured_text [OF spawned_info nf, of start_fen] spawned_info nf l
  show ?thesis unfolding c using n by blast
qed

text \<open>
  The text is not dropped at the timeout: when the token arrives cut in two chunks, no
  chunk holds it, the loop runs into its timeout, and the parse still finds the move.
\<close>

theorem split_token_counterexample:
  "\<not> found (result_wait env_split)
   \<and> 7 < seconds_count (int (clock (result_wait env_split)) - int (clock (ready_wait env_split)))
   \<and> fst (run_stockfish env_split start_fen) = Returns ''bestmove e2e4 ''
   \<and> fst (Move env_split start_fen) = Returns ''e2e4''"
proof -
  have ct: "child_terminates env_split" by (simp add: env_split_def env_quiet_def)
  have r: "fst (run_stockfish env_split start_fen) = Returns ''bestmove e2e4 ''"
    by (simp add: run_stockfish_listens [OF spawned_split listens_split] ct result_wait_split)
  have p: "Move_result ''bestmove e2e4 '' = (''e2e4'', [])"
    by (simp add: Move_result_def parse_output_def find_str_def substr_from_def substr_def
          size_sub_def)
  from Move_returns [OF r] r p show ?thesis
    by (simp add: result_wait_split ready_wait_split seconds_count_def)
qed

text \<open>
  C3. The clean-up does not run on every path after a successful \<open>fork\<close>. When the
  engine has closed its end of the pipe (here: \<open>execl\<close> failed and the child has
  exited), the flush of line 111 raises \<open>SIGPIPE\<close> and the process ends there: no
  stream is closed, no signal is sent to the child, the child is not waited for.
\<close>

theorem broken_pipe_skips_cleanup:
  "spawned env_exec_fails
   \<and> run_stockfish env_exec_fails start_fen
       = (Killed_by_SIGPIPE,
          [Pipe P2C_read P2C_write, Pipe C2P_read C2P_write, Fork,
           Close P2C_read, Close C2P_write, Set_nonblock C2P_read,
           Fdopen P2C_write To_engine, Fdopen C2P_read From_engine,
           Fprintf (''uci'' @ [newline]), Fflush,
           Fprintf (''setoption name Threads value 8'' @ [newline]),
           Fprintf (''setoption name Hash value 512'' @ [newline]),
           Fprintf (''setoption name Skill Level value 20'' @ [newline]),
           Fprintf (''setoption name MultiPV value 1'' @ [newline]),
           Fprintf (''isready'' @ [newline]), Fflush])
   \<and> filter shutdown_part (snd (run_stockfish env_exec_fails start_fen)) = []"
proof -
  have h: "show_int (sint (hardware_concurrency env_exec_fails)) = ''8''"
    using threads_quiet by (simp add: env_exec_fails_def)
  have r: "run_stockfish env_exec_fails start_fen
      = (Killed_by_SIGPIPE,
         [Pipe P2C_read P2C_write, Pipe C2P_read C2P_write, Fork]
         @ open_streams @ uci_cmd @ configure env_exec_fails)"
    by (simp add: run_stockfish_spawned [OF spawned_exec_fails] parent_exec_fails)
  show ?thesis
    using spawned_exec_fails
    by (simp add: r open_streams_def uci_cmd_def configure_def h)
qed




text \<open>
  C5. The locator takes the first path of the fixed list that is executable. When no
  path of the list is executable, \<open>run_stockfish\<close> throws the runtime error
  "Could not find stockfish executable ..." and nothing else, before any pipe or process
  is made (the trace is empty).
\<close>

theorem locator_first_match_or_not_found:
  "(stockfish_paths = pre @ p # post \<and> (\<forall>q\<in>set pre. \<not> access_X_OK env q) \<and> access_X_OK env p
      \<longrightarrow> find_path env stockfish_paths = p
          \<and> fst (run_stockfish env fen) \<noteq> Throws (Runtime_error
               ''Could not find stockfish executable in any of the expected paths.''))
   \<and> ((\<forall>q\<in>set stockfish_paths. \<not> access_X_OK env q)
      \<longrightarrow> run_stockfish env fen = (Throws (Runtime_error
               ''Could not find stockfish executable in any of the expected paths.''), []))"
proof (intro conjI impI)
  assume a: "stockfish_paths = pre @ p # post \<and> (\<forall>q\<in>set pre. \<not> access_X_OK env q)
      \<and> access_X_OK env p"
  then have f: "find_path env stockfish_paths = p"
    using find_path_first [of pre env p post] by simp
  then show "find_path env stockfish_paths = p" .
  from a have "p \<in> set stockfish_paths" by (metis in_set_conv_decomp)
  then have "p \<noteq> []" by (rule stockfish_paths_nonempty)
  with f show "fst (run_stockfish env fen) \<noteq> Throws (Runtime_error
               ''Could not find stockfish executable in any of the expected paths.'')"
    by (auto simp: run_stockfish_def Let_def child_def parent_def split: prod.splits if_splits)
next
  assume "\<forall>q\<in>set stockfish_paths. \<not> access_X_OK env q"
  then have "find_path env stockfish_paths = []" by (rule find_path_none)
  then show "run_stockfish env fen = (Throws (Runtime_error
               ''Could not find stockfish executable in any of the expected paths.''), [])"
    by (simp add: run_stockfish_def)
qed

theorem locator_first_match_or_not_found_witness:
  "find_path env_quiet stockfish_paths = ''/app/stockfish''
   \<and> find_path env_no_engine stockfish_paths = []
   \<and> run_stockfish env_no_engine start_fen = (Throws (Runtime_error
               ''Could not find stockfish executable in any of the expected paths.''), [])"
proof -
  have s: "stockfish_paths = [''/usr/local/bin/stockfish''] @ ''/app/stockfish''
             # [''stockfish'', ''/opt/homebrew/bin/stockfish'']"
    by (simp add: stockfish_paths_def)
  have n: "\<forall>q\<in>set [''/usr/local/bin/stockfish'']. \<not> access_X_OK env_quiet q"
    and y: "access_X_OK env_quiet ''/app/stockfish''"
    by (simp_all add: env_quiet_def)
  have none: "\<forall>q\<in>set stockfish_paths. \<not> access_X_OK env_no_engine q"
    by (simp add: env_no_engine_def)
  from locator_first_match_or_not_found [of "[''/usr/local/bin/stockfish'']" "''/app/stockfish''"
         "[''stockfish'', ''/opt/homebrew/bin/stockfish'']" env_quiet start_fen] s n y
  have 1: "find_path env_quiet stockfish_paths = ''/app/stockfish''" by blast
  from locator_first_match_or_not_found [of "[]" "[]" "[]" env_no_engine start_fen] none
  have 2: "run_stockfish env_no_engine start_fen = (Throws (Runtime_error
               ''Could not find stockfish executable in any of the expected paths.''), [])"
    by blast
  from none have 3: "find_path env_no_engine stockfish_paths = []" by (rule find_path_none)
  from 1 3 2 show ?thesis by blast
qed

text \<open>
  C6. When the engine never emits \<open>bestmove\<close> (no stretch of its output holds the
  token) and reads its input at every flush, the second wait loop ends without the
  token after at most 801 polls: the deadline is looked at in every round, whether data
  came or not, and every round sleeps 10 ms or more. \<open>Move\<close> then returns the empty
  string if the child ends after the clean-up, and stays blocked in \<open>waitpid\<close> if it
  does not.
\<close>

theorem silent_engine_returns_empty:
  assumes "spawned env" and "engine_listens env"
    and "\<forall>i j. find_str (captured env i j) ''bestmove'' 0 = None"
  shows "\<not> found (result_wait env)
       \<and> reads (result_wait env) \<le> reads (ready_wait env) + 801
       \<and> (child_terminates env \<longrightarrow> fst (Move env fen) = Returns [])
       \<and> (\<not> child_terminates env \<longrightarrow> fst (Move env fen) = Blocked_in_waitpid)"
proof -
  let ?s = "ready_wait env\<lparr>result := [], found := False\<rparr>"
  have rw: "result_wait env = wait_loop env ''bestmove'' 7 (clock (ready_wait env)) ?s"
    by (simp add: result_wait_def Let_def)
  have "\<forall>k b. reads ?s \<le> k \<longrightarrow> fgets_from_engine env k = Some b \<longrightarrow> \<not> strstr b ''bestmove''"
    using chunk_no_token [OF assms(3)] by blast
  then have nf: "\<not> found (result_wait env)"
    unfolding rw by (intro wait_loop_token_absent) simp_all
  have n: "reads (result_wait env) \<le> reads (ready_wait env) + 801"
    using wait_loop_rounds [of env "''bestmove''" 7 "clock (ready_wait env)" ?s]
    by (simp add: rw)
  have r: "fst (Move env fen) = Returns []" if ct: "child_terminates env"
  proof -
    have "fst (run_stockfish env fen)
        = Returns (captured env (reads (ready_wait env)) (reads (result_wait env)))"
      using run_stockfish_returns [OF assms(1,2) ct, of fen] result_wait_captured [of env]
      by simp
    then have "run_stockfish env fen
        = (Returns (captured env (reads (ready_wait env)) (reads (result_wait env))),
           snd (run_stockfish env fen))"
      by (metis prod.collapse)
    from Move_no_bestmove [OF this] assms(3) show ?thesis by simp
  qed
  have b: "fst (Move env fen) = Blocked_in_waitpid" if "\<not> child_terminates env"
  proof -
    from that have "fst (run_stockfish env fen) = Blocked_in_waitpid"
      by (simp add: run_stockfish_listens [OF assms(1,2)])
    then show ?thesis by (simp add: Move_blocked)
  qed
  from nf n r b show ?thesis by blast
qed

theorem silent_engine_returns_empty_witness:
  "spawned env_info \<and> engine_listens env_info
   \<and> (\<forall>i j. find_str (captured env_info i j) ''bestmove'' 0 = None)
   \<and> reads (result_wait env_info) = 5
   \<and> fst (Move env_info start_fen) = Returns []"
proof -
  have h: "\<forall>i j. find_str (captured env_info i j) ''bestmove'' 0 = None"
    by (simp add: captured_info find_str_def newline_def)
  have ct: "child_terminates env_info" by (simp add: env_info_def env_quiet_def)
  from silent_engine_returns_empty [OF spawned_info listens_info h, of start_fen] ct
  have "fst (Move env_info start_fen) = Returns []" by blast
  with spawned_info listens_info h show ?thesis by (simp add: result_wait_info)
qed

text \<open>
  The call can hang although the loop has ended: the clean-up sends \<open>SIGTERM\<close> and
  waits without a limit. This engine reports on its search, never gives a move and
  outlives the signal; the second loop ends after five polls and \<open>Move\<close> does not
  return.
\<close>

theorem silent_engine_hangs_counterexample:
  "spawned env_deaf_info \<and> engine_listens env_deaf_info
   \<and> \<not> found (result_wait env_deaf_info) \<and> reads (result_wait env_deaf_info) = 5
   \<and> result (result_wait env_deaf_info) = ''info depth 1'' @ [newline]
   \<and> fst (Move env_deaf_info start_fen) = Blocked_in_waitpid
   \<and> fst (Move env_deaf_info start_fen) \<noteq> Returns []"
proof -
  have "\<not> child_terminates env_deaf_info" by (simp add: env_deaf_info_def)
  then have "fst (run_stockfish env_deaf_info start_fen) = Blocked_in_waitpid"
    by (simp add: run_stockfish_listens [OF spawned_deaf_info listens_deaf_info])
  then have "fst (Move env_deaf_info start_fen) = Blocked_in_waitpid"
    by (simp add: Move_blocked)
  with spawned_deaf_info listens_deaf_info show ?thesis
    by (simp add: result_wait_deaf_info)
qed

text \<open>
  C7. A timeout of the first wait loop is followed by the flush of the position
  command, and that flush can be the end of the process. This engine reads the
  configuration and ends without an answer: no chunk holds \<open>readyok\<close>, the loop leaves
  with more than 5 whole seconds on the clock, the position command is written, its
  flush (line 139) raises \<open>SIGPIPE\<close>, and \<open>go movetime 1000\<close> is never sent.
\<close>

theorem ready_timeout_then_broken_pipe:
  "spawned env_dies_early
   \<and> \<not> found (ready_wait env_dies_early)
   \<and> 5 < seconds_count (int (clock (ready_wait env_dies_early))
                          - int (clock0 env_dies_early + 100000000))
   \<and> run_stockfish env_dies_early start_fen
       = (Killed_by_SIGPIPE,
          [Pipe P2C_read P2C_write, Pipe C2P_read C2P_write, Fork,
           Close P2C_read, Close C2P_write, Set_nonblock C2P_read,
           Fdopen P2C_write To_engine, Fdopen C2P_read From_engine,
           Fprintf (''uci'' @ [newline]), Fflush,
           Fprintf (''setoption name Threads value 8'' @ [newline]),
           Fprintf (''setoption name Hash value 512'' @ [newline]),
           Fprintf (''setoption name Skill Level value 20'' @ [newline]),
           Fprintf (''setoption name MultiPV value 1'' @ [newline]),
           Fprintf (''isready'' @ [newline]), Fflush,
           Fprintf (''position fen '' @ start_fen @ [newline]), Fflush])
   \<and> Fprintf (''go movetime 1000'' @ [newline])
         \<notin> set (snd (run_stockfish env_dies_early start_fen))
   \<and> fst (Move env_dies_early start_fen) = Killed_by_SIGPIPE"
proof -
  have h: "show_int (sint (hardware_concurrency env_dies_early)) = ''8''"
    using threads_quiet by (simp add: env_dies_early_def)
  have f: "c_str start_fen = start_fen"
    by (rule c_str_no_NUL) (simp add: start_fen_def NUL_def)
  have r: "run_stockfish env_dies_early start_fen
      = (Killed_by_SIGPIPE,
         [Pipe P2C_read P2C_write, Pipe C2P_read C2P_write, Fork]
         @ open_streams @ uci_cmd @ configure env_dies_early @ position_cmd start_fen)"
    by (simp add: run_stockfish_spawned [OF spawned_dies_early] parent_dies_early)
  then have "fst (run_stockfish env_dies_early start_fen) = Killed_by_SIGPIPE" by simp
  then have m: "fst (Move env_dies_early start_fen) = Killed_by_SIGPIPE"
    by (simp add: Move_killed)
  have c0: "clock0 env_dies_early = 0" by (simp add: env_dies_early_def env_quiet_def)
  show ?thesis
    using spawned_dies_early m
    by (simp add: r open_streams_def uci_cmd_def configure_def position_cmd_def h f
          ready_wait_dies_early c0 seconds_count_def)
qed

text \<open>
  C8. The parser cuts the move at the first space only. A \<open>bestmove\<close> line without a
  ponder move ends in a newline, as \<open>fgets\<close> delivers it, and the newline stays in the
  move that \<open>Move\<close> returns: the word is not delimited by white space in general.
\<close>

theorem newline_stays_in_move:
  "Move_result (''bestmove e2e4'' @ [newline]) = (''e2e4'' @ [newline], [])
   \<and> fst (Move env_no_ponder start_fen) = Returns (''e2e4'' @ [newline])"
proof -
  have p: "Move_result (''bestmove e2e4'' @ [newline]) = (''e2e4'' @ [newline], [])"
    by (simp add: Move_result_def parse_output_def find_str_def substr_from_def substr_def
          size_sub_def newline_def)
  have ct: "child_terminates env_no_ponder" by (simp add: env_no_ponder_def env_quiet_def)
  have "fst (run_stockfish env_no_ponder start_fen) = Returns (''bestmove e2e4'' @ [newline])"
    using run_stockfish_returns [OF spawned_no_ponder listens_no_ponder ct, of start_fen]
    by (simp add: result_wait_no_ponder)
  from Move_returns [OF this] p show ?thesis by simp
qed

text \<open>
  C9. A call reaches the clean-up when it writes \<open>quit\<close>. For every such call whose
  FEN is one line of text, the commands written to the engine are exactly these nine,
  in this order, and they are the nine lines of the bytes sent, with the FEN unchanged
  in the position command.
\<close>

theorem commands_in_order:
  assumes "Fprintf (''quit'' @ [newline]) \<in> set (snd (run_stockfish env fen))"
    and "one_line fen"
  shows "commands (snd (run_stockfish env fen)) =
     [''uci'' @ [newline],
      ''setoption name Threads value '' @ show_int (sint (hardware_concurrency env)) @ [newline],
      ''setoption name Hash value 512'' @ [newline],
      ''setoption name Skill Level value 20'' @ [newline],
      ''setoption name MultiPV value 1'' @ [newline],
      ''isready'' @ [newline],
      ''position fen '' @ fen @ [newline],
      ''go movetime 1000'' @ [newline],
      ''quit'' @ [newline]]
   \<and> lines_of (concat (commands (snd (run_stockfish env fen)))) =
     [''uci'',
      ''setoption name Threads value '' @ show_int (sint (hardware_concurrency env)),
      ''setoption name Hash value 512'',
      ''setoption name Skill Level value 20'',
      ''setoption name MultiPV value 1'',
      ''isready'',
      ''position fen '' @ fen,
      ''go movetime 1000'',
      ''quit'']"
proof -
  let ?threads = "''setoption name Threads value '' @ show_int (sint (hardware_concurrency env))"
  from assms(2) have nul: "NUL \<notin> set fen" and nl: "newline \<notin> set fen"
    by (simp_all add: one_line_def)
  have c: "commands (snd (run_stockfish env fen)) =
     [''uci'' @ [newline], ?threads @ [newline],
      ''setoption name Hash value 512'' @ [newline],
      ''setoption name Skill Level value 20'' @ [newline],
      ''setoption name MultiPV value 1'' @ [newline],
      ''isready'' @ [newline],
      (''position fen '' @ fen) @ [newline],
      ''go movetime 1000'' @ [newline],
      ''quit'' @ [newline]]"
    using commands_at_teardown [OF assms(1)] c_str_no_NUL [OF nul] by simp
  have t: "newline \<notin> set ?threads"
    using show_int_no_newline [of "sint (hardware_concurrency env)"]
    by (simp add: newline_def)
  have p: "newline \<notin> set (''position fen '' @ fen)"
    using nl by (simp add: newline_def)
  have l: "newline \<notin> set ''uci''" "newline \<notin> set ''setoption name Hash value 512''"
    "newline \<notin> set ''setoption name Skill Level value 20''"
    "newline \<notin> set ''setoption name MultiPV value 1''"
    "newline \<notin> set ''isready''" "newline \<notin> set ''go movetime 1000''"
    "newline \<notin> set ''quit''"
    by (simp_all add: newline_def)
  have "lines_of (concat (commands (snd (run_stockfish env fen)))) =
     [''uci'', ?threads, ''setoption name Hash value 512'',
      ''setoption name Skill Level value 20'', ''setoption name MultiPV value 1'',
      ''isready'', ''position fen '' @ fen, ''go movetime 1000'', ''quit'']"
    unfolding c concat.simps append_Nil2
    by (simp only: lines_of_line lines_of_last t p l not_False_eq_True)
  with c show ?thesis by simp
qed

theorem commands_in_order_witness:
  "Fprintf (''quit'' @ [newline]) \<in> set (snd (run_stockfish env_quiet start_fen))
   \<and> one_line start_fen
   \<and> lines_of (concat (commands (snd (run_stockfish env_quiet start_fen)))) =
     [''uci'',
      ''setoption name Threads value 8'',
      ''setoption name Hash value 512'',
      ''setoption name Skill Level value 20'',
      ''setoption name MultiPV value 1'',
      ''isready'',
      ''position fen '' @ start_fen,
      ''go movetime 1000'',
      ''quit'']"
proof -
  have q: "Fprintf (''quit'' @ [newline]) \<in> set (snd (run_stockfish env_quiet start_fen))"
    by (simp add: run_stockfish_listens [OF spawned_quiet listens_quiet] shutdown_def
          quit_cmd_def)
  have n: "one_line start_fen" by (simp add: one_line_def start_fen_def NUL_def newline_def)
  have a: "''setoption name Threads value ''
        @ show_int (sint (hardware_concurrency env_quiet))
      = ''setoption name Threads value 8''"
    by (simp add: threads_quiet)
  from commands_in_order [OF q n, THEN conjunct2]
  have "lines_of (concat (commands (snd (run_stockfish env_quiet start_fen)))) =
     [''uci'',
      ''setoption name Threads value 8'',
      ''setoption name Hash value 512'',
      ''setoption name Skill Level value 20'',
      ''setoption name MultiPV value 1'',
      ''isready'',
      ''position fen '' @ start_fen,
      ''go movetime 1000'',
      ''quit'']"
    by (simp only: a)
  with q n show ?thesis by (intro conjI)
qed

text \<open>
  C10. When both pipes were made and \<open>fork\<close> fails, the four pipe descriptors are
  closed, each once, and then the runtime error "Failed to fork process" is thrown.
\<close>

theorem fork_failure_closes_pipes:
  assumes "find_path env stockfish_paths \<noteq> []" and "pipe1_ok env" and "pipe2_ok env"
    and "fork_pid env < 0"
  shows "run_stockfish env fen =
           (Throws (Runtime_error ''Failed to fork process''),
            [Pipe P2C_read P2C_write, Pipe C2P_read C2P_write, Fork,
             Close P2C_read, Close P2C_write, Close C2P_read, Close C2P_write])"
  using assms by (simp add: run_stockfish_def Let_def)

theorem fork_failure_closes_pipes_witness:
  "find_path env_fork_fails stockfish_paths \<noteq> [] \<and> pipe1_ok env_fork_fails
   \<and> pipe2_ok env_fork_fails \<and> fork_pid env_fork_fails < 0
   \<and> run_stockfish env_fork_fails start_fen =
           (Throws (Runtime_error ''Failed to fork process''),
            [Pipe P2C_read P2C_write, Pipe C2P_read C2P_write, Fork,
             Close P2C_read, Close P2C_write, Close C2P_read, Close C2P_write])"
proof -
  have 1: "find_path env_fork_fails stockfish_paths \<noteq> []"
    by (simp add: env_fork_fails_def env_quiet_def stockfish_paths_def)
  have 2: "pipe1_ok env_fork_fails" and 3: "pipe2_ok env_fork_fails"
    and 4: "fork_pid env_fork_fails < 0"
    by (simp_all add: env_fork_fails_def env_quiet_def)
  from fork_failure_closes_pipes [OF 1 2 3 4, of start_fen] 1 2 3 4 show ?thesis by blast
qed

end
